theory Spec2Isabelle
  imports Main "HOL-Library.Word"
begin

section \<open>JavaScript numbers\<close>

text \<open>
  Every \<^verbatim>\<open>number\<close> of the program is an IEEE-754 double. The values that occur in the fee
  computation are non-negative and either integers or multiples of \<open>2\<^sup>-\<^sup>5\<^sup>5\<close>, so a double is
  represented by a natural number (its value, or its numerator over \<open>2\<^sup>5\<^sup>5\<close>), and an
  arithmetic operation is the exact operation followed by rounding to 53 significant bits,
  ties to even.
\<close>

fun bit_length :: "nat \<Rightarrow> nat" where
  "bit_length n = (if n = 0 then 0 else Suc (bit_length (n div 2)))"

declare bit_length.simps [simp del]

definition round53 :: "nat \<Rightarrow> nat" where
  "round53 p =
     (if p < 2 ^ 53 then p
      else let u = 2 ^ (bit_length p - 53); q = p div u; r = p mod u
           in if 2 * r < u \<or> (2 * r = u \<and> even q) then q * u else (q + 1) * u)"


definition js_sub :: "nat \<Rightarrow> nat \<Rightarrow> nat" where
  "js_sub a b = round53 (a - b)"

text \<open>
  The literal \<^verbatim>\<open>0.15\<close> denotes the double \<open>5404319552844595 / 2\<^sup>5\<^sup>5\<close>
  (bit pattern \<^verbatim>\<open>0x3FC3333333333333\<close>).
\<close>

definition FEE_RATE_MANTISSA :: nat where
  "FEE_RATE_MANTISSA = 5404319552844595"

text \<open>\<^verbatim>\<open>x >>> 0\<close> on a non-negative integer-valued double: ToUint32.\<close>

definition to_uint32 :: "nat \<Rightarrow> nat" where
  "to_uint32 x = x mod 2 ^ 32"

datatype JsError = Error string | RangeError string


section \<open>Public keys and base58\<close>

text \<open>
  \<^verbatim>\<open>PublicKey\<close> comes from the library \<^verbatim>\<open>@solana/web3.js\<close>, which encodes keys with
  \<^verbatim>\<open>bs58\<close>: a key is 32 bytes, its string form is the base58 encoding of these bytes in
  the Bitcoin alphabet, with one \<^verbatim>\<open>1\<close> for each leading zero byte; the constructor decodes
  a string and throws unless the result has exactly 32 bytes.
\<close>

type_synonym byte = "8 word"

datatype PublicKey = PublicKey (toBytes: "byte list")

definition ALPHABET :: string where
  "ALPHABET = ''123456789ABCDEFGHJKLMNPQRSTUVWXYZabcdefghijkmnopqrstuvwxyz''"


definition nat_of_bytes :: "byte list \<Rightarrow> nat" where
  "nat_of_bytes bs = foldl (\<lambda>n b. n * 256 + unat b) 0 bs"

fun digits58 :: "nat \<Rightarrow> nat list" where
  "digits58 n = (if n = 0 then [] else digits58 (n div 58) @ [n mod 58])"

declare digits58.simps [simp del]



definition bs58_encode :: "byte list \<Rightarrow> string" where
  "bs58_encode source =
     replicate (length (takeWhile (\<lambda>b. b = 0) source)) (CHR ''1'')
     @ map (\<lambda>d. ALPHABET ! d) (digits58 (nat_of_bytes source))"




definition toBase58 :: "PublicKey \<Rightarrow> string" where
  "toBase58 k = bs58_encode (toBytes k)"


definition TOKEN_PROGRAM_ID :: PublicKey where
  "TOKEN_PROGRAM_ID = PublicKey
     [6, 221, 246, 225, 215, 101, 161, 147, 217, 203, 225, 70, 206, 235, 121, 172,
      28, 180, 133, 237, 95, 91, 55, 145, 58, 140, 245, 133, 126, 255, 0, 169]"


section \<open>Account detection (\<^verbatim>\<open>detectReclaimableAccounts\<close>)\<close>

datatype AccountType = Token | Nft | AssociatedToken | Metadata | Other | Unknown

record EmptyAccount =
  address :: PublicKey
  lamports :: nat
  owner :: PublicKey
  executable :: bool
  rentEpoch :: nat
  account_type :: AccountType
  programId :: string

text \<open>
  What the ledger returns. Of the parsed data of a token account the scan reads
  \<^verbatim>\<open>parsed.info.tokenAmount.amount\<close> and \<^verbatim>\<open>parsed.info.decimals\<close>; a missing
  \<^verbatim>\<open>decimals\<close> or \<^verbatim>\<open>rentEpoch\<close> is \<open>None\<close>.
\<close>

record ParsedInfo =
  tokenAmount_amount :: string
  decimals :: "nat option"

record 'd AccountInfo =
  ai_lamports :: nat
  ai_owner :: PublicKey
  ai_executable :: bool
  ai_rentEpoch :: "nat option"
  ai_data :: 'd

record 'd KeyedAccount =
  pubkey :: PublicKey
  account :: "'d AccountInfo"

text \<open>
  The connection, as the answers to the five queries of one scan, in the order the scan
  makes them; \<open>Inl\<close> is a rejected promise.
\<close>

record Connection =
  getParsedTokenAccountsByOwner_1 :: "JsError + ParsedInfo KeyedAccount list"
  getParsedTokenAccountsByOwner_2 :: "JsError + ParsedInfo KeyedAccount list"
  getProgramAccounts_associated :: "JsError + unit KeyedAccount list"
  getAccountInfo :: "JsError + unit AccountInfo option"
  getProgramAccounts_wallet :: "JsError + unit KeyedAccount list"

definition ASSOCIATED_TOKEN_PROGRAM_ID :: PublicKey where
  "ASSOCIATED_TOKEN_PROGRAM_ID = PublicKey
     [140, 151, 37, 143, 78, 36, 137, 241, 187, 55, 63, 49, 56, 160, 41, 255,
      27, 43, 150, 86, 245, 113, 150, 108, 105, 200, 216, 139, 161, 220, 109, 181]"

definition isAlreadyIncluded :: "EmptyAccount list \<Rightarrow> PublicKey \<Rightarrow> bool" where
  "isAlreadyIncluded reclaimableAccounts k = list_ex (\<lambda>a. address a = k) reclaimableAccounts"

text \<open>The object literal pushed by every pass, up to its \<^verbatim>\<open>type\<close> and \<^verbatim>\<open>programId\<close>.\<close>

definition entry :: "'d KeyedAccount \<Rightarrow> AccountType \<Rightarrow> string \<Rightarrow> EmptyAccount" where
  "entry acct ty pid =
     \<lparr>address = pubkey acct,
      lamports = ai_lamports (account acct),
      owner = ai_owner (account acct),
      executable = ai_executable (account acct),
      rentEpoch = (case ai_rentEpoch (account acct) of None \<Rightarrow> 0 | Some e \<Rightarrow> e),
      account_type = ty,
      programId = pid\<rparr>"

text \<open>The bodies of the four loops; the pause after every 50 entries changes no value.\<close>

definition token_pass :: "EmptyAccount list \<Rightarrow> ParsedInfo KeyedAccount \<Rightarrow> EmptyAccount list" where
  "token_pass reclaimableAccounts acct =
     (if tokenAmount_amount (ai_data (account acct)) = ''0''
      then reclaimableAccounts @ [entry acct Token (toBase58 TOKEN_PROGRAM_ID)]
      else reclaimableAccounts)"

definition nft_pass :: "EmptyAccount list \<Rightarrow> ParsedInfo KeyedAccount \<Rightarrow> EmptyAccount list" where
  "nft_pass reclaimableAccounts acct =
     (if tokenAmount_amount (ai_data (account acct)) = ''0''
         \<and> decimals (ai_data (account acct)) = Some 0
      then if \<not> isAlreadyIncluded reclaimableAccounts (pubkey acct)
           then reclaimableAccounts @ [entry acct Nft (toBase58 (ai_owner (account acct)))]
           else reclaimableAccounts
      else reclaimableAccounts)"

definition ata_pass :: "EmptyAccount list \<Rightarrow> unit KeyedAccount \<Rightarrow> EmptyAccount list" where
  "ata_pass reclaimableAccounts acct =
     (if 0 < ai_lamports (account acct)
      then if \<not> isAlreadyIncluded reclaimableAccounts (pubkey acct)
           then reclaimableAccounts
                @ [entry acct AssociatedToken (toBase58 (ai_owner (account acct)))]
           else reclaimableAccounts
      else reclaimableAccounts)"

definition all_programs_pass :: "EmptyAccount list \<Rightarrow> unit KeyedAccount \<Rightarrow> EmptyAccount list" where
  "all_programs_pass reclaimableAccounts acct =
     (if \<not> isAlreadyIncluded reclaimableAccounts (pubkey acct) \<and> 0 < ai_lamports (account acct)
      then let pid = toBase58 (ai_owner (account acct));
               ty = (if pid = toBase58 TOKEN_PROGRAM_ID then Token
                     else if pid = ''ATokenGPvbdGVqstVQmcLsNZAqeEbtQaMy63xtto2CXv''
                     then AssociatedToken
                     else if pid = ''metaqbxxUerdq28cj1RbAqWwTRiWLMsqLoea1PgurZ'' then Metadata
                     else Unknown)
           in reclaimableAccounts @ [entry acct Unknown pid]
      else reclaimableAccounts)"

definition detectReclaimableAccounts :: "Connection \<Rightarrow> JsError + EmptyAccount list" where
  "detectReclaimableAccounts connection =
     (case getParsedTokenAccountsByOwner_1 connection of
        Inl e \<Rightarrow> Inl e
      | Inr tokenAccounts \<Rightarrow>
     (case getParsedTokenAccountsByOwner_2 connection of
        Inl e \<Rightarrow> Inl e
      | Inr nftAccounts \<Rightarrow>
     (case getProgramAccounts_associated connection of
        Inl e \<Rightarrow> Inl e
      | Inr ataAccounts \<Rightarrow>
     (case getAccountInfo connection of
        Inl e \<Rightarrow> Inl e
      | Inr allAccounts \<Rightarrow>
     (case getProgramAccounts_wallet connection of
        Inl e \<Rightarrow> Inl e
      | Inr allProgramAccounts \<Rightarrow>
          Inr (foldl all_programs_pass
                (foldl ata_pass
                  (foldl nft_pass (foldl token_pass [] tokenAccounts) nftAccounts)
                  ataAccounts)
                allProgramAccounts))))))"

section \<open>The page (\<^verbatim>\<open>page.tsx\<close>)\<close>


subsection \<open>Building the instructions (\<^verbatim>\<open>reclaimSOL\<close>, up to the fee transfer)\<close>




text \<open>\<^verbatim>\<open>buf.writeUInt32LE(value, offset)\<close>: throws when the value or the offset is out of range.\<close>

definition writeUInt32LE :: "byte list \<Rightarrow> nat \<Rightarrow> nat \<Rightarrow> JsError + byte list" where
  "writeUInt32LE buf v offset =
     (if 4294967295 < v then Inl (RangeError ''value out of range'')
      else if length buf < offset + 4
      then Inl (RangeError ''offset out of range'')
      else Inr (buf[offset := of_nat v,
                    offset + 1 := of_nat (v div 2 ^ 8),
                    offset + 2 := of_nat (v div 2 ^ 16),
                    offset + 3 := of_nat (v div 2 ^ 24)]))"


text \<open>
  \<^verbatim>\<open>Math.floor(totalLamports * 0.15)\<close>: the product of two doubles, rounded to a double
  (a numerator over \<open>2\<^sup>5\<^sup>5\<close>), then floored.
\<close>

definition feeLamports :: "nat \<Rightarrow> nat" where
  "feeLamports total_lamports = round53 (total_lamports * FEE_RATE_MANTISSA) div 2 ^ 55"

text \<open>\<^verbatim>\<open>totalLamports - feeLamports\<close>, the net amount before it is scaled for display.\<close>

definition netLamports :: "nat \<Rightarrow> nat" where
  "netLamports total_lamports = js_sub total_lamports (feeLamports total_lamports)"

text \<open>
  The eight bytes of the amount: \<^verbatim>\<open>Math.floor(fee / 0x100000000)\<close> is exact on an
  integer-valued double, since dividing by a power of two only changes the exponent.
\<close>

definition feeBuffer :: "nat \<Rightarrow> JsError + byte list" where
  "feeBuffer fee =
     (case writeUInt32LE [0, 0, 0, 0, 0, 0, 0, 0] (to_uint32 fee) 0 of
        Inl e \<Rightarrow> Inl e
      | Inr buf \<Rightarrow> writeUInt32LE buf (fee div 4294967296) 4)"

text \<open>
  The data of the fee instruction: the two writes into \<^verbatim>\<open>feeBuffer\<close>, then
  \<^verbatim>\<open>Buffer.concat([Buffer.from([2, 0, 0, 0]), feeBuffer])\<close>.
\<close>

definition transfer_data :: "nat \<Rightarrow> JsError + byte list" where
  "transfer_data fee =
     (case feeBuffer fee of Inl e \<Rightarrow> Inl e | Inr buf \<Rightarrow> Inr ([2, 0, 0, 0] @ buf))"




subsection \<open>Confirming the transaction (\<^verbatim>\<open>reclaimSOL\<close>, after submission)\<close>

datatype ConfirmationStatus = Processed | Confirmed | Finalized

text \<open>
  One call of \<^verbatim>\<open>getSignatureStatus\<close>: it throws, it gives no status
  (\<^verbatim>\<open>status.value\<close> is null), or it gives a status whose \<^verbatim>\<open>confirmationStatus\<close> may be
  missing.
\<close>

datatype SignatureStatus = Throws | NoValue | Value "ConfirmationStatus option"

fun reached :: "SignatureStatus \<Rightarrow> bool" where
  "reached (Value (Some Confirmed)) = True"
| "reached (Value (Some Finalized)) = True"
| "reached _ = False"

text \<open>
  The polling loop from iteration \<open>i\<close> on; \<open>replies i\<close> is the answer to the call of
  iteration \<open>i\<close>. The result is the flag \<^verbatim>\<open>confirmed\<close> and the number of calls made.
\<close>

function poll :: "(nat \<Rightarrow> SignatureStatus) \<Rightarrow> nat \<Rightarrow> bool \<times> nat" where
  "poll replies i =
     (if i < 60
      then if reached (replies i) then (True, Suc i) else poll replies (Suc i)
      else (False, i))"
  by pat_completeness auto
termination
  by (relation "measure (\<lambda>(replies, i). 60 - i)") auto

declare poll.simps [simp del]

text \<open>
  The status line, by its template and the values put into it: the amounts (shown in SOL
  with four decimals) and the part of the signature that is shown.
\<close>

datatype StatusLine =
    Success_Reclaimed (shown_total: nat) (shown_net: nat) (shown_fee: nat) (shown_tx: string)
  | Transaction_submitted (shown_tx: string)

record Report =
  status :: StatusLine
  error :: string

definition reclaimSOL_confirm ::
  "string \<Rightarrow> (nat \<Rightarrow> SignatureStatus) \<Rightarrow> nat \<Rightarrow> Report" where
  "reclaimSOL_confirm signature replies total_lamports =
     (let confirmed = fst (poll replies 0);
          fee = feeLamports total_lamports
      in \<lparr>status =
             (if confirmed
              then Success_Reclaimed total_lamports (netLamports total_lamports) fee (take 20 signature)
              else Transaction_submitted (take 20 signature)),
          error = []\<rparr>)"

section \<open>Example data\<close>

definition key_of_last_byte :: "byte \<Rightarrow> PublicKey" where
  \<comment> \<open>A 32-byte key: 31 zero bytes, then the given byte.\<close>
  "key_of_last_byte b = PublicKey
     [0, 0, 0, 0, 0, 0, 0, 0, 0, 0, 0, 0, 0, 0, 0, 0,
      0, 0, 0, 0, 0, 0, 0, 0, 0, 0, 0, 0, 0, 0, 0, b]"



definition token_account :: "byte \<Rightarrow> string \<Rightarrow> nat option \<Rightarrow> bool \<Rightarrow> ParsedInfo KeyedAccount" where
  \<comment> \<open>A rent-exempt token account as the ledger reports it.\<close>
  "token_account b amount dec exe =
     \<lparr>pubkey = key_of_last_byte b,
      account = \<lparr>ai_lamports = 2039280, ai_owner = TOKEN_PROGRAM_ID, ai_executable = exe,
                 ai_rentEpoch = Some 361, ai_data = \<lparr>tokenAmount_amount = amount, decimals = dec\<rparr>\<rparr>\<rparr>"

definition raw_account :: "byte \<Rightarrow> nat \<Rightarrow> PublicKey \<Rightarrow> unit KeyedAccount" where
  "raw_account b l prog =
     \<lparr>pubkey = key_of_last_byte b,
      account = \<lparr>ai_lamports = l, ai_owner = prog, ai_executable = False,
                 ai_rentEpoch = None, ai_data = ()\<rparr>\<rparr>"

definition empty_ledger :: Connection where
  \<comment> \<open>Every query succeeds and finds nothing.\<close>
  "empty_ledger =
     \<lparr>getParsedTokenAccountsByOwner_1 = Inr [],
      getParsedTokenAccountsByOwner_2 = Inr [],
      getProgramAccounts_associated = Inr [],
      getAccountInfo = Inr None,
      getProgramAccounts_wallet = Inr []\<rparr>"

definition nft_shaped_ledger :: Connection where
  \<comment> \<open>Both token-account queries report the same empty account with 0 decimals.\<close>
  "nft_shaped_ledger = empty_ledger
     \<lparr>getParsedTokenAccountsByOwner_1 := Inr [token_account 1 ''0'' (Some 0) False],
      getParsedTokenAccountsByOwner_2 := Inr [token_account 1 ''0'' (Some 0) False]\<rparr>"

definition repeating_ledger :: Connection where
  \<comment> \<open>The first query reports one empty token account twice.\<close>
  "repeating_ledger = empty_ledger
     \<lparr>getParsedTokenAccountsByOwner_1 :=
        Inr [token_account 1 ''0'' (Some 6) False, token_account 1 ''0'' (Some 6) False]\<rparr>"

definition overlapping_ledger :: Connection where
  \<comment> \<open>Repeated addresses within the later answers and across all of them.\<close>
  "overlapping_ledger =
     \<lparr>getParsedTokenAccountsByOwner_1 =
        Inr [token_account 1 ''0'' (Some 0) False, token_account 2 ''0'' (Some 6) False,
             token_account 8 ''25'' (Some 6) False],
      getParsedTokenAccountsByOwner_2 =
        Inr [token_account 1 ''0'' (Some 0) False, token_account 3 ''0'' (Some 0) False,
             token_account 3 ''0'' (Some 0) False],
      getProgramAccounts_associated =
        Inr [raw_account 4 2039280 ASSOCIATED_TOKEN_PROGRAM_ID,
             raw_account 4 2039280 ASSOCIATED_TOKEN_PROGRAM_ID,
             raw_account 2 2039280 ASSOCIATED_TOKEN_PROGRAM_ID],
      getAccountInfo = Inr None,
      getProgramAccounts_wallet =
        Inr [raw_account 5 890880 TOKEN_PROGRAM_ID, raw_account 4 2039280 TOKEN_PROGRAM_ID,
             raw_account 5 890880 TOKEN_PROGRAM_ID]\<rparr>"


definition token_owned_ledger :: Connection where
  \<comment> \<open>The catch-all query reports an account whose owning program is the token program.\<close>
  "token_owned_ledger = empty_ledger
     \<lparr>getProgramAccounts_wallet := Inr [raw_account 7 2039280 TOKEN_PROGRAM_ID]\<rparr>"


definition le64 :: "64 word \<Rightarrow> byte list" where
  \<comment> \<open>The reference encoding: the eight bytes of a 64-bit value, least significant first.\<close>
  "le64 w = map (\<lambda>i. ucast (drop_bit (8 * i) w)) [0, 1, 2, 3, 4, 5, 6, 7]"



definition example_signature :: string where
  \<comment> \<open>A transaction signature: 88 base58 characters.\<close>
  "example_signature =
     ''5VERv8NMvzbJMEkV8xnrLkEaWRtSz9CosKDYjCJjBRnbJLgp8uirBgmQpjKhoR4tjF3ZpRzrFmBV6UjKdiSZkQUW''"

definition never_confirmed :: "nat \<Rightarrow> SignatureStatus" where
  \<comment> \<open>The ledger keeps answering that the transaction is processed, not yet confirmed.\<close>
  "never_confirmed i = Value (Some Processed)"

definition confirmed_at_third :: "nat \<Rightarrow> SignatureStatus" where
  \<comment> \<open>A failed call, an unknown signature, then a confirmed status.\<close>
  "confirmed_at_third i =
     (if i = 0 then Throws else if i = 1 then NoValue else Value (Some Confirmed))"

section \<open>Rounding and the fee\<close>













section \<open>The scan\<close>

lemma address_entry [simp]: "address (entry a ty pid) = pubkey a"
  by (simp add: entry_def)

lemma isAlreadyIncluded_iff: "isAlreadyIncluded acc k \<longleftrightarrow> k \<in> address ` set acc"
  by (auto simp: isAlreadyIncluded_def list_ex_iff)

lemma foldl_token_pass:
  "foldl token_pass acc xs =
     acc @ map (\<lambda>a. entry a Token (toBase58 TOKEN_PROGRAM_ID))
             (filter (\<lambda>a. tokenAmount_amount (ai_data (account a)) = ''0'') xs)"
  by (induction xs arbitrary: acc) (simp_all add: token_pass_def)

lemma nft_pass_distinct:
  "distinct (map address acc) \<Longrightarrow> distinct (map address (nft_pass acc a))"
  by (simp add: nft_pass_def isAlreadyIncluded_iff)

lemma ata_pass_distinct:
  "distinct (map address acc) \<Longrightarrow> distinct (map address (ata_pass acc a))"
  by (simp add: ata_pass_def isAlreadyIncluded_iff)

lemma all_programs_pass_distinct:
  "distinct (map address acc) \<Longrightarrow> distinct (map address (all_programs_pass acc a))"
  by (simp add: all_programs_pass_def isAlreadyIncluded_iff Let_def)

lemma foldl_preserves:
  assumes "\<And>acc a. P acc \<Longrightarrow> P (f acc a)"
  shows "P acc \<Longrightarrow> P (foldl f acc xs)"
  by (induction xs arbitrary: acc) (simp_all add: assms)





lemma detect_Inr:
  assumes "detectReclaimableAccounts c = Inr out"
  obtains ts ns as ai ps where
    "getParsedTokenAccountsByOwner_1 c = Inr ts"
    "getParsedTokenAccountsByOwner_2 c = Inr ns"
    "getProgramAccounts_associated c = Inr as"
    "getAccountInfo c = Inr ai"
    "getProgramAccounts_wallet c = Inr ps"
    "out = foldl all_programs_pass
             (foldl ata_pass (foldl nft_pass (foldl token_pass [] ts) ns) as) ps"
  using assms unfolding detectReclaimableAccounts_def
  by (auto split: sum.splits)

text \<open>
  Claim C3, as amended. When the empty token accounts of the first answer have pairwise
  distinct addresses, no two entries of the scan's output have the same address, whatever
  addresses repeat within the other three answers or across the four of them.
\<close>

theorem scan_addresses_distinct:
  assumes q1: "getParsedTokenAccountsByOwner_1 c = Inr tokenAccounts"
    and d: "distinct (map pubkey
              (filter (\<lambda>a. tokenAmount_amount (ai_data (account a)) = ''0'') tokenAccounts))"
    and r: "detectReclaimableAccounts c = Inr out"
  shows "distinct (map address out)"
proof -
  from r obtain ts ns as ps where
    ts: "getParsedTokenAccountsByOwner_1 c = Inr ts"
    and out: "out = foldl all_programs_pass
             (foldl ata_pass (foldl nft_pass (foldl token_pass [] ts) ns) as) ps"
    by (rule detect_Inr)
  from q1 ts have "ts = tokenAccounts" by simp
  with d have "distinct (map address (foldl token_pass [] ts))"
    by (simp add: foldl_token_pass comp_def)
  then have "distinct (map address (foldl nft_pass (foldl token_pass [] ts) ns))"
    by (rule foldl_preserves [rotated]) (rule nft_pass_distinct)
  then have "distinct (map address
      (foldl ata_pass (foldl nft_pass (foldl token_pass [] ts) ns) as))"
    by (rule foldl_preserves [rotated]) (rule ata_pass_distinct)
  then show ?thesis
    unfolding out by (rule foldl_preserves [rotated]) (rule all_programs_pass_distinct)
qed



subsection \<open>The scan on concrete ledgers\<close>

lemma key_of_last_byte_eq [simp]: "key_of_last_byte a = key_of_last_byte b \<longleftrightarrow> a = b"
  by (simp add: key_of_last_byte_def)

lemmas scan_eval = detectReclaimableAccounts_def token_pass_def nft_pass_def ata_pass_def
  all_programs_pass_def isAlreadyIncluded_def entry_def token_account_def raw_account_def
  empty_ledger_def Let_def

text \<open>
  Claim C2. An account of the token program with amount \<^verbatim>\<open>"0"\<close> and 0 decimals, reported
  by both token-account queries, is pushed by the first pass as \<^verbatim>\<open>token\<close>; the second
  pass finds its address present and skips it, so it is never tagged \<^verbatim>\<open>nft\<close>.
\<close>

theorem empty_zero_decimals_account_is_tagged_token:
  "detectReclaimableAccounts nft_shaped_ledger =
     Inr [entry (token_account 1 ''0'' (Some 0) False) Token (toBase58 TOKEN_PROGRAM_ID)]
   \<and> account_type (entry (token_account 1 ''0'' (Some 0) False) Token (toBase58 TOKEN_PROGRAM_ID))
       \<noteq> Nft"
  by (simp add: scan_eval nft_shaped_ledger_def)

text \<open>
  Claim C3 as stated fails: the first pass pushes without looking for the address, so an
  address that the first answer holds twice is in the output twice.
\<close>

theorem repeated_address_in_first_answer_survives:
  "detectReclaimableAccounts repeating_ledger =
     Inr [entry (token_account 1 ''0'' (Some 6) False) Token (toBase58 TOKEN_PROGRAM_ID),
          entry (token_account 1 ''0'' (Some 6) False) Token (toBase58 TOKEN_PROGRAM_ID)]
   \<and> \<not> distinct (map address
         [entry (token_account 1 ''0'' (Some 6) False) Token (toBase58 TOKEN_PROGRAM_ID),
          entry (token_account 1 ''0'' (Some 6) False) Token (toBase58 TOKEN_PROGRAM_ID)])"
  by (simp add: scan_eval repeating_ledger_def)

lemma overlapping_scan:
  "detectReclaimableAccounts overlapping_ledger =
     Inr [entry (token_account 1 ''0'' (Some 0) False) Token (toBase58 TOKEN_PROGRAM_ID),
          entry (token_account 2 ''0'' (Some 6) False) Token (toBase58 TOKEN_PROGRAM_ID),
          entry (token_account 3 ''0'' (Some 0) False) Nft (toBase58 TOKEN_PROGRAM_ID),
          entry (raw_account 4 2039280 ASSOCIATED_TOKEN_PROGRAM_ID) AssociatedToken
            (toBase58 ASSOCIATED_TOKEN_PROGRAM_ID),
          entry (raw_account 5 890880 TOKEN_PROGRAM_ID) Unknown (toBase58 TOKEN_PROGRAM_ID)]"
  by (simp add: scan_eval overlapping_ledger_def)

text \<open>
  Claim C3, witness: a ledger whose later answers repeat addresses among themselves and
  of the first answer.
\<close>

theorem scan_addresses_distinct_witness:
  "distinct (map address
     [entry (token_account 1 ''0'' (Some 0) False) Token (toBase58 TOKEN_PROGRAM_ID),
      entry (token_account 2 ''0'' (Some 6) False) Token (toBase58 TOKEN_PROGRAM_ID),
      entry (token_account 3 ''0'' (Some 0) False) Nft (toBase58 TOKEN_PROGRAM_ID),
      entry (raw_account 4 2039280 ASSOCIATED_TOKEN_PROGRAM_ID) AssociatedToken
        (toBase58 ASSOCIATED_TOKEN_PROGRAM_ID),
      entry (raw_account 5 890880 TOKEN_PROGRAM_ID) Unknown (toBase58 TOKEN_PROGRAM_ID)])"
proof (rule scan_addresses_distinct [of overlapping_ledger])
  show "getParsedTokenAccountsByOwner_1 overlapping_ledger =
     Inr [token_account 1 ''0'' (Some 0) False, token_account 2 ''0'' (Some 6) False,
          token_account 8 ''25'' (Some 6) False]"
    by (simp add: overlapping_ledger_def)
  show "distinct (map pubkey
     (filter (\<lambda>a. tokenAmount_amount (ai_data (account a)) = ''0'')
        [token_account 1 ''0'' (Some 0) False, token_account 2 ''0'' (Some 6) False,
         token_account 8 ''25'' (Some 6) False]))"
    by (simp add: token_account_def)
  show "detectReclaimableAccounts overlapping_ledger =
     Inr [entry (token_account 1 ''0'' (Some 0) False) Token (toBase58 TOKEN_PROGRAM_ID),
          entry (token_account 2 ''0'' (Some 6) False) Token (toBase58 TOKEN_PROGRAM_ID),
          entry (token_account 3 ''0'' (Some 0) False) Nft (toBase58 TOKEN_PROGRAM_ID),
          entry (raw_account 4 2039280 ASSOCIATED_TOKEN_PROGRAM_ID) AssociatedToken
            (toBase58 ASSOCIATED_TOKEN_PROGRAM_ID),
          entry (raw_account 5 890880 TOKEN_PROGRAM_ID) Unknown (toBase58 TOKEN_PROGRAM_ID)]"
    by (rule overlapping_scan)
qed



text \<open>
  Claim C7. The last pass computes a type from the owning program and then pushes the entry
  with the constant \<^verbatim>\<open>"unknown"\<close>: an account owned by the token program is stored as
  \<^verbatim>\<open>unknown\<close>, not as \<^verbatim>\<open>token\<close>.
\<close>

theorem catch_all_stores_unknown_for_token_program:
  "detectReclaimableAccounts token_owned_ledger =
     Inr [entry (raw_account 7 2039280 TOKEN_PROGRAM_ID) Unknown (toBase58 TOKEN_PROGRAM_ID)]
   \<and> owner (entry (raw_account 7 2039280 TOKEN_PROGRAM_ID) Unknown (toBase58 TOKEN_PROGRAM_ID))
       = TOKEN_PROGRAM_ID
   \<and> account_type (entry (raw_account 7 2039280 TOKEN_PROGRAM_ID) Unknown (toBase58 TOKEN_PROGRAM_ID))
       = Unknown"
  by (simp add: scan_eval token_owned_ledger_def)



section \<open>The fee transfer\<close>

lemma writeUInt32LE_0:
  "writeUInt32LE [b0, b1, b2, b3, b4, b5, b6, b7] v 0 =
   (if 4294967295 < v then Inl (RangeError ''value out of range'')
    else Inr [of_nat v, of_nat (v div 2 ^ 8), of_nat (v div 2 ^ 16), of_nat (v div 2 ^ 24),
              b4, b5, b6, b7])"
  by (simp add: writeUInt32LE_def)

lemma four_Suc: "(4::nat) = Suc (Suc (Suc (Suc 0)))"
  by simp

lemma writeUInt32LE_4:
  "writeUInt32LE [b0, b1, b2, b3, b4, b5, b6, b7] v 4 =
   (if 4294967295 < v then Inl (RangeError ''value out of range'')
    else Inr [b0, b1, b2, b3,
              of_nat v, of_nat (v div 2 ^ 8), of_nat (v div 2 ^ 16), of_nat (v div 2 ^ 24)])"
  unfolding writeUInt32LE_def four_Suc by simp

lemma byte_of_word64:
  "(ucast (drop_bit n (of_nat fee :: 64 word)) :: byte) = of_nat (drop_bit n (take_bit 64 fee))"
  by (simp add: word_eq_iff_unsigned [where ?'a = nat] unsigned_ucast_eq unsigned_drop_bit_eq
      unsigned_of_nat)

lemma byte_low:
  assumes "n + 8 \<le> 32"
  shows "(of_nat (to_uint32 fee div 2 ^ n) :: byte) = of_nat (drop_bit n fee)"
proof -
  have "to_uint32 fee div 2 ^ n = drop_bit n (take_bit 32 fee)"
    by (simp add: to_uint32_def take_bit_eq_mod drop_bit_eq_div)
  moreover have "take_bit 8 (drop_bit n (take_bit 32 fee)) = take_bit 8 (drop_bit n fee)"
    using assms by (intro bit_eqI) (auto simp: bit_take_bit_iff bit_drop_bit_eq)
  ultimately show ?thesis by (simp add: word_of_nat_eq_iff)
qed

lemma byte_high:
  "(of_nat (fee div 4294967296 div 2 ^ n) :: byte) = of_nat (drop_bit (n + 32) fee)"
proof -
  have "fee div 4294967296 = drop_bit 32 fee" by (simp add: drop_bit_eq_div)
  then show ?thesis by (simp add: drop_bit_drop_bit flip: drop_bit_eq_div)
qed

lemma feeBuffer_le64:
  assumes "fee < 2 ^ 64"
  shows "feeBuffer fee = Inr (le64 (of_nat fee))"
proof -
  have hi: "\<not> 4294967295 < fee div 4294967296" using assms by simp
  have lo: "\<not> 4294967295 < to_uint32 fee" by (simp add: to_uint32_def)
  have tb: "take_bit 64 fee = fee" using assms by (simp add: take_bit_nat_eq_self_iff)
  have "feeBuffer fee =
    Inr [of_nat (to_uint32 fee div 2 ^ 0), of_nat (to_uint32 fee div 2 ^ 8),
         of_nat (to_uint32 fee div 2 ^ 16), of_nat (to_uint32 fee div 2 ^ 24),
         of_nat (fee div 4294967296 div 2 ^ 0), of_nat (fee div 4294967296 div 2 ^ 8),
         of_nat (fee div 4294967296 div 2 ^ 16), of_nat (fee div 4294967296 div 2 ^ 24)]"
    unfolding feeBuffer_def using hi lo by (simp add: writeUInt32LE_0 writeUInt32LE_4)
  also have "\<dots> = Inr (le64 (of_nat fee))"
    unfolding le64_def
    by (simp add: byte_of_word64 tb
        byte_low [of 0 fee, simplified] byte_low [of 8 fee, simplified]
        byte_low [of 16 fee, simplified] byte_low [of 24 fee, simplified]
        byte_high [of fee 0, simplified] byte_high [of fee 8, simplified]
        byte_high [of fee 16, simplified] byte_high [of fee 24, simplified])
  finally show ?thesis .
qed


text \<open>
  Claim C9. For every fee below \<open>2\<^sup>5\<^sup>3\<close> the data of the fee transfer is the tag
  \<open>[2, 0, 0, 0]\<close> followed by the 64-bit little-endian encoding of the fee.
\<close>

theorem fee_transfer_data_is_tag_and_le64:
  assumes "fee < 2 ^ 53"
  shows "transfer_data fee = Inr ([2, 0, 0, 0] @ le64 (of_nat fee))"
proof -
  from assms have "fee < 2 ^ 64" by (rule less_trans) simp
  then have "feeBuffer fee = Inr (le64 (of_nat fee))" by (rule feeBuffer_le64)
  then show ?thesis by (simp add: transfer_data_def)
qed

text \<open>Claim C9, witness: the fee 1200000000000002, whose high word is not zero.\<close>

theorem fee_transfer_data_is_tag_and_le64_witness:
  "(1200000000000002::nat) < 2 ^ 53
   \<and> transfer_data 1200000000000002 = Inr [2, 0, 0, 0, 2, 0, 187, 197, 100, 67, 4, 0]"
proof -
  have h: "(1200000000000002::nat) < 2 ^ 53" by simp
  from fee_transfer_data_is_tag_and_le64 [OF h] show ?thesis
    by (simp add: le64_def drop_bit_eq_div)
qed

section \<open>The instruction list\<close>















section \<open>The confirmation loop\<close>

lemma poll_calls_le: "i \<le> 60 \<Longrightarrow> snd (poll replies i) \<le> 60"
proof (induction replies i rule: poll.induct)
  case (1 replies i)
  then show ?case by (simp add: poll.simps [of replies i])
qed

lemma poll_confirmed_iff:
  "fst (poll replies i) \<longleftrightarrow> (\<exists>j. i \<le> j \<and> j < 60 \<and> reached (replies j))"
proof (induction replies i rule: poll.induct)
  case (1 replies i)
  show ?case
  proof (cases "i < 60 \<and> \<not> reached (replies i)")
    case True
    then have "fst (poll replies i) = fst (poll replies (Suc i))"
      by (simp add: poll.simps [of replies i])
    also have "\<dots> \<longleftrightarrow> (\<exists>j. Suc i \<le> j \<and> j < 60 \<and> reached (replies j))"
      using True by (intro "1.IH") simp_all
    also have "\<dots> \<longleftrightarrow> (\<exists>j. i \<le> j \<and> j < 60 \<and> reached (replies j))"
      using True by (metis Suc_leD Suc_leI le_neq_implies_less)
    finally show ?thesis .
  next
    case False
    then show ?thesis by (auto simp: poll.simps [of replies i])
  qed
qed

lemma poll_stops_at_first:
  "fst (poll replies i) \<Longrightarrow>
     i < snd (poll replies i) \<and> reached (replies (snd (poll replies i) - 1))
     \<and> (\<forall>j. i \<le> j \<and> j < snd (poll replies i) - 1 \<longrightarrow> \<not> reached (replies j))"
proof (induction replies i rule: poll.induct)
  case (1 replies i)
  from "1.prems" have i60: "i < 60" by (simp add: poll.simps [of replies i] split: if_splits)
  show ?case
  proof (cases "reached (replies i)")
    case True
    with i60 have "poll replies i = (True, Suc i)" by (simp add: poll.simps [of replies i])
    with True show ?thesis by auto
  next
    case False
    with i60 have eq: "poll replies i = poll replies (Suc i)"
      by (simp add: poll.simps [of replies i])
    with "1.prems" have "fst (poll replies (Suc i))" by simp
    from "1.IH" [OF i60 False this]
    have a: "Suc i < snd (poll replies (Suc i))"
      and b: "reached (replies (snd (poll replies (Suc i)) - 1))"
      and c: "\<forall>j. Suc i \<le> j \<and> j < snd (poll replies (Suc i)) - 1 \<longrightarrow> \<not> reached (replies j)"
      by simp_all
    have "\<not> reached (replies j)" if "i \<le> j" "j < snd (poll replies (Suc i)) - 1" for j
    proof (cases "j = i")
      case True
      with False show ?thesis by simp
    next
      case False
      with that have "Suc i \<le> j" by simp
      with c that show ?thesis by simp
    qed
    with a b show ?thesis unfolding eq by auto
  qed
qed

lemma poll_exhausted:
  "\<not> fst (poll replies i) \<Longrightarrow> i \<le> 60 \<Longrightarrow> snd (poll replies i) = 60"
proof (induction replies i rule: poll.induct)
  case (1 replies i)
  show ?case
  proof (cases "i < 60")
    case True
    with "1.prems" have nr: "\<not> reached (replies i)"
      by (auto simp: poll.simps [of replies i])
    with True have eq: "poll replies i = poll replies (Suc i)"
      by (simp add: poll.simps [of replies i])
    with "1.prems" True have "snd (poll replies (Suc i)) = 60"
      by (intro "1.IH" [OF True nr]) simp_all
    with eq show ?thesis by simp
  next
    case False
    then have "poll replies i = (False, i)" by (simp add: poll.simps [of replies i])
    moreover from False "1.prems" have "i = 60" by simp
    ultimately show ?thesis by simp
  qed
qed

text \<open>
  Claim C6, as amended. The loop calls \<^verbatim>\<open>getSignatureStatus\<close> at most 60 times; it ends
  with \<^verbatim>\<open>confirmed\<close> set exactly when one of the first 60 answers is \<^verbatim>\<open>confirmed\<close> or
  \<^verbatim>\<open>finalized\<close>, and then the last call made is the first such answer. When all 60 calls
  are used up the report is the status line \<^verbatim>\<open>Transaction submitted\<close> with no error
  set, and it shows the first 20 characters of the signature.
\<close>

theorem confirmation_polling_is_bounded:
  "snd (poll replies 0) \<le> 60
   \<and> (fst (poll replies 0) \<longleftrightarrow> (\<exists>j<60. reached (replies j)))
   \<and> (fst (poll replies 0) \<longrightarrow>
        reached (replies (snd (poll replies 0) - 1))
        \<and> (\<forall>j. j < snd (poll replies 0) - 1 \<longrightarrow> \<not> reached (replies j)))
   \<and> (\<not> fst (poll replies 0) \<longrightarrow>
        snd (poll replies 0) = 60
        \<and> reclaimSOL_confirm signature replies total_lamports
            = \<lparr>status = Transaction_submitted (take 20 signature), error = []\<rparr>)"
proof -
  have "snd (poll replies 0) \<le> 60" by (rule poll_calls_le) simp
  moreover have "fst (poll replies 0) \<longleftrightarrow> (\<exists>j<60. reached (replies j))"
    by (simp add: poll_confirmed_iff)
  moreover have "reached (replies (snd (poll replies 0) - 1))
        \<and> (\<forall>j. j < snd (poll replies 0) - 1 \<longrightarrow> \<not> reached (replies j))"
    if "fst (poll replies 0)"
    using poll_stops_at_first [OF that] by simp
  moreover have "snd (poll replies 0) = 60" if "\<not> fst (poll replies 0)"
    using that by (rule poll_exhausted) simp
  moreover have "reclaimSOL_confirm signature replies total_lamports
            = \<lparr>status = Transaction_submitted (take 20 signature), error = []\<rparr>"
    if "\<not> fst (poll replies 0)"
    using that by (simp add: reclaimSOL_confirm_def)
  ultimately show ?thesis by blast
qed

lemma never_confirmed_not_reached: "\<not> reached (never_confirmed j)"
  by (simp add: never_confirmed_def)

text \<open>
  Claim C6, witness: a transaction that is never confirmed, and one confirmed at the third
  call.
\<close>

theorem confirmation_polling_is_bounded_witness:
  "\<not> fst (poll never_confirmed 0) \<and> snd (poll never_confirmed 0) = 60
   \<and> reclaimSOL_confirm example_signature never_confirmed 7039
       = \<lparr>status = Transaction_submitted ''5VERv8NMvzbJMEkV8xnr'', error = []\<rparr>
   \<and> fst (poll confirmed_at_third 0) \<and> snd (poll confirmed_at_third 0) \<le> 60
   \<and> reached (confirmed_at_third (snd (poll confirmed_at_third 0) - 1))"
proof -
  note a = confirmation_polling_is_bounded [of never_confirmed example_signature 7039]
  note b = confirmation_polling_is_bounded [of confirmed_at_third example_signature 7039]
  have n: "\<not> fst (poll never_confirmed 0)"
    using a by (simp add: never_confirmed_not_reached)
  have "reached (confirmed_at_third 2)" by (simp add: confirmed_at_third_def)
  then have "\<exists>j<60. reached (confirmed_at_third j)" by (intro exI [of _ 2]) simp
  then have c: "fst (poll confirmed_at_third 0)" using b by blast
  have "take 20 example_signature = ''5VERv8NMvzbJMEkV8xnr''"
    by (simp add: example_signature_def)
  with a b n c show ?thesis by simp
qed

text \<open>
  Claim C6 as stated fails: after 60 unconfirmed calls the report holds 20 of the 88
  characters of the signature, not the transaction identifier.
\<close>

theorem timed_out_report_truncates_the_signature:
  "reclaimSOL_confirm example_signature never_confirmed 7039
     = \<lparr>status = Transaction_submitted ''5VERv8NMvzbJMEkV8xnr'', error = []\<rparr>
   \<and> shown_tx (status (reclaimSOL_confirm example_signature never_confirmed 7039))
       \<noteq> example_signature"
proof -
  have "\<not> fst (poll never_confirmed 0)"
    by (simp add: poll_confirmed_iff never_confirmed_not_reached)
  then show ?thesis
    by (simp add: reclaimSOL_confirm_def example_signature_def)
qed

section \<open>Address validation\<close>







end
